theory Spec2Isabelle
  imports Complex_Main "HOL-Library.Sublist" "HOL-Library.AList"
begin

section \<open>SDQC stance classification: filter, relabeler and ensemble combiner\<close>

text \<open>
  A shallow embedding of \<^verbatim>\<open>rumoureval/classification/sdqc.py\<close>: the training filter
  \<^verbatim>\<open>filter_tweets\<close>, the one-vs-rest relabeler
  \<^verbatim>\<open>generate_one_vs_rest_annotations\<close> and the part of \<^verbatim>\<open>sdqc\<close> that merges
  the three classifiers' predictions and picks one of the two merged sequences.

  The classifiers themselves, the text normaliser
  \<^verbatim>\<open>TweetDetailExtractor.get_parseable_tweet_text\<close> and the scikit-learn calls
  \<^verbatim>\<open>TfidfVectorizer().fit_transform\<close> / \<^verbatim>\<open>cosine_similarity\<close> are not code of this
  file; they enter the model as parameters.
\<close>

subsection \<open>Errors\<close>

text \<open>
  Python exceptions that the modelled code can raise: an index past the end of a
  sequence, a missing dictionary key, and the \<^verbatim>\<open>ValueError\<close> that scikit-learn raises
  (inconsistent lengths in \<^verbatim>\<open>accuracy_score\<close>, and whatever the similarity computation
  may raise).
\<close>

datatype error = IndexError | KeyError | ValueError

definition py_index :: "'a list \<Rightarrow> nat \<Rightarrow> error + 'a" where
  "py_index xs i = (if i < length xs then Inr (xs ! i) else Inl IndexError)"

subsection \<open>Tweets and the walk to the thread root\<close>

text \<open>
  A tweet object answers \<^verbatim>\<open>tweet['id']\<close>, carries its raw text and answers
  \<^verbatim>\<open>tweet.parent()\<close> with its parent tweet or \<^verbatim>\<open>None\<close>. The parent is fixed when the
  thread is built, so a tweet is a finite chain of ancestors, which the datatype expresses.
\<close>

datatype tweet = Tweet (id_field: int) (text_field: string) (parent: "tweet option")

text \<open>
  \<^verbatim>\<open>root_tweet = tweet; while root_tweet.parent() is not None: root_tweet = root_tweet.parent()\<close>
\<close>

fun root_of :: "tweet \<Rightarrow> tweet" where
  "root_of (Tweet i txt None) = Tweet i txt None"
| "root_of (Tweet i txt (Some p)) = root_of p"

subsection \<open>Splitting a text at a separator\<close>

text \<open>
  \<^verbatim>\<open>text.split(' ')\<close>: the pieces between consecutive occurrences of the separator.
  Two adjacent separators enclose an empty piece, and so do a leading and a trailing
  separator; the empty text gives one empty piece.
\<close>

fun split_where :: "(char \<Rightarrow> bool) \<Rightarrow> string \<Rightarrow> string list" where
  "split_where sep [] = [[]]"
| "split_where sep (c # cs) =
     (if sep c then [] # split_where sep cs
      else (case split_where sep cs of
              [] \<Rightarrow> [[c]]
            | w # ws \<Rightarrow> (c # w) # ws))"

definition split_space :: "string \<Rightarrow> string list" where
  "split_space s = split_where (\<lambda>c. c = CHR '' '') s"

text \<open>
  The specification's wording, for comparison with \<^const>\<open>split_space\<close>: the
  whitespace-separated tokens of a text are its maximal runs of non-whitespace
  characters (space, tab, line feed, vertical tab, form feed, carriage return).
\<close>

definition is_whitespace :: "char \<Rightarrow> bool" where
  "is_whitespace c \<longleftrightarrow> c \<in> {CHR '' '', CHR 0x09, CHR 0x0A, CHR 0x0B, CHR 0x0C, CHR 0x0D}"

definition spec_whitespace_tokens :: "string \<Rightarrow> string list" where
  "spec_whitespace_tokens s = filter (\<lambda>w. w \<noteq> []) (split_where is_whitespace s)"

subsection \<open>The training filter\<close>

text \<open>
  The two external functions are parameters of the filter:
  \<^item> \<open>parseable\<close> is \<^verbatim>\<open>TweetDetailExtractor.get_parseable_tweet_text\<close>;
  \<^item> \<open>similarity root_text tweet_text\<close> is entry \<^verbatim>\<open>[0][1]\<close> of
    \<^verbatim>\<open>cosine_similarity(m[0:1], m)\<close> for
    \<^verbatim>\<open>m = TfidfVectorizer().fit_transform((root_text, tweet_text))\<close>. A fresh vectorizer
    is built for every tweet, so the value depends on the two texts only. The call may
    raise, hence the sum type. Scores and the threshold are floats, read as reals.

  The state of the loop is the root-text cache and the list built so far.
\<close>

type_synonym filter_state = "(int \<rightharpoonup> string) \<times> tweet list"

definition filter_body ::
  "(tweet \<Rightarrow> string) \<Rightarrow> (string \<Rightarrow> string \<Rightarrow> error + real) \<Rightarrow> bool \<Rightarrow> real \<Rightarrow>
   filter_state \<Rightarrow> tweet \<Rightarrow> error + filter_state" where
  "filter_body parseable similarity filter_short similarity_threshold st tweet =
     (let root_cache = fst st; filtered_tweets = snd st; root_tweet = root_of tweet in
      if root_tweet = tweet then Inr (root_cache, filtered_tweets @ [tweet])
      else
        let root_text = (case root_cache (id_field root_tweet) of
                           Some cached \<Rightarrow> cached
                         | None \<Rightarrow> parseable root_tweet);
            root_cache = root_cache(id_field root_tweet \<mapsto> root_text);
            tweet_text = parseable tweet
        in if filter_short \<and> length (split_space tweet_text) < 3
           then Inr (root_cache, filtered_tweets)
           else (case similarity root_text tweet_text of
                   Inl e \<Rightarrow> Inl e
                 | Inr s \<Rightarrow>
                     if s < similarity_threshold
                     then Inr (root_cache, filtered_tweets @ [tweet])
                     else Inr (root_cache, filtered_tweets)))"

fun filter_loop ::
  "(tweet \<Rightarrow> string) \<Rightarrow> (string \<Rightarrow> string \<Rightarrow> error + real) \<Rightarrow> bool \<Rightarrow> real \<Rightarrow>
   filter_state \<Rightarrow> tweet list \<Rightarrow> error + filter_state" where
  "filter_loop parseable similarity filter_short similarity_threshold st [] = Inr st"
| "filter_loop parseable similarity filter_short similarity_threshold st (tweet # tweets) =
     (case filter_body parseable similarity filter_short similarity_threshold st tweet of
        Inl e \<Rightarrow> Inl e
      | Inr st' \<Rightarrow> filter_loop parseable similarity filter_short similarity_threshold st' tweets)"

definition filter_tweets ::
  "(tweet \<Rightarrow> string) \<Rightarrow> (string \<Rightarrow> string \<Rightarrow> error + real) \<Rightarrow> bool \<Rightarrow> real \<Rightarrow>
   tweet list \<Rightarrow> error + tweet list" where
  "filter_tweets parseable similarity filter_short similarity_threshold tweets =
     (case filter_loop parseable similarity filter_short similarity_threshold (Map.empty, []) tweets of
        Inl e \<Rightarrow> Inl e
      | Inr st \<Rightarrow> Inr (snd st))"

subsection \<open>The one-vs-rest relabeler\<close>

text \<open>
  A Python dictionary keeps its keys in insertion order and holds each key once: an
  association list with distinct keys. \<^verbatim>\<open>d[k] = v\<close> is \<^const>\<open>AList.update\<close>
  (replace in place, or append), \<^verbatim>\<open>d[k]\<close> is a lookup that raises \<^verbatim>\<open>KeyError\<close> on
  a missing key, and \<^verbatim>\<open>for k in d\<close> visits \<open>map fst d\<close>.
\<close>

type_synonym annotations = "(string \<times> string) list"

fun relabel_loop :: "annotations \<Rightarrow> string \<Rightarrow> string list \<Rightarrow> annotations \<Rightarrow> error + annotations" where
  "relabel_loop annotations one [] one_vs_rest = Inr one_vs_rest"
| "relabel_loop annotations one (tweet_id # ids) one_vs_rest =
     (case map_of annotations tweet_id of
        None \<Rightarrow> Inl KeyError
      | Some label \<Rightarrow>
          relabel_loop annotations one ids
            (AList.update tweet_id (if label = one then label else ''not_'' @ one) one_vs_rest))"

definition generate_one_vs_rest_annotations :: "annotations \<Rightarrow> string \<Rightarrow> error + annotations" where
  "generate_one_vs_rest_annotations annotations one =
     relabel_loop annotations one (map fst annotations) []"

subsection \<open>The ensemble combiner\<close>

text \<open>
  One pass of the loop over \<^verbatim>\<open>range(len(base_predictions))\<close> appends one label to each
  of the two lists. The reads \<^verbatim>\<open>query_predictions[i]\<close> and \<^verbatim>\<open>deny_predictions[i]\<close>
  happen in the order of the source and raise past the end of their sequence.
\<close>

definition without_deny_label :: "string list \<Rightarrow> string list \<Rightarrow> nat \<Rightarrow> error + string" where
  "without_deny_label base_predictions query_predictions i =
     (case py_index base_predictions i of
        Inl e \<Rightarrow> Inl e
      | Inr b \<Rightarrow>
          if b = ''comment'' then Inr ''comment''
          else (case py_index query_predictions i of
                  Inl e \<Rightarrow> Inl e
                | Inr q \<Rightarrow> if q = ''query'' then Inr ''query'' else Inr b))"

definition with_deny_label ::
  "string list \<Rightarrow> string list \<Rightarrow> string list \<Rightarrow> nat \<Rightarrow> error + string" where
  "with_deny_label base_predictions deny_predictions query_predictions i =
     (case py_index query_predictions i of
        Inl e \<Rightarrow> Inl e
      | Inr q \<Rightarrow>
          if q = ''query'' then Inr ''query''
          else (case py_index deny_predictions i of
                  Inl e \<Rightarrow> Inl e
                | Inr d \<Rightarrow>
                    if d = ''deny'' then Inr ''deny''
                    else py_index base_predictions i))"

fun ensemble_loop ::
  "string list \<Rightarrow> string list \<Rightarrow> string list \<Rightarrow> nat list \<Rightarrow>
   string list \<times> string list \<Rightarrow> error + string list \<times> string list" where
  "ensemble_loop base_predictions deny_predictions query_predictions [] acc = Inr acc"
| "ensemble_loop base_predictions deny_predictions query_predictions (i # rest) acc =
     (case without_deny_label base_predictions query_predictions i of
        Inl e \<Rightarrow> Inl e
      | Inr l_wo \<Rightarrow>
          (case with_deny_label base_predictions deny_predictions query_predictions i of
             Inl e \<Rightarrow> Inl e
           | Inr l_w \<Rightarrow>
               ensemble_loop base_predictions deny_predictions query_predictions rest
                 (fst acc @ [l_wo], snd acc @ [l_w])))"

text \<open>The pair \<^verbatim>\<open>(predictions_wo_deny, predictions_w_deny)\<close> after the loop.\<close>

definition ensemble ::
  "string list \<Rightarrow> string list \<Rightarrow> string list \<Rightarrow> error + string list \<times> string list" where
  "ensemble base_predictions deny_predictions query_predictions =
     ensemble_loop base_predictions deny_predictions query_predictions
       [0..<length base_predictions] ([], [])"

text \<open>
  \<^verbatim>\<open>metrics.accuracy_score(y_true, y_pred)\<close>: the share of positions where the two
  sequences agree. Sequences of different lengths are refused with
  \<^verbatim>\<open>ValueError\<close>, and so are empty sequences (no sample to score). The float quotient
  is read as a real. Both scores that the selection compares have the same denominator,
  so rounding the quotients to doubles changes neither their order nor whether they are
  equal.
\<close>

definition accuracy_score :: "string list \<Rightarrow> string list \<Rightarrow> error + real" where
  "accuracy_score y_true y_pred =
     (if length y_true \<noteq> length y_pred then Inl ValueError
      else if y_true = [] then Inl ValueError
      else Inr (real (length (filter (\<lambda>(t, p). t = p) (zip y_true y_pred)))
                / real (length y_true)))"

text \<open>
  \<^verbatim>\<open>predictions = predictions_w_deny if accuracy_score(y_eval_base, predictions_wo_deny)
  < accuracy_score(y_eval_base, predictions_w_deny) else predictions_wo_deny\<close>
\<close>

definition best_predictions ::
  "string list \<Rightarrow> string list \<Rightarrow> string list \<Rightarrow> error + string list" where
  "best_predictions y_eval_base predictions_wo_deny predictions_w_deny =
     (case accuracy_score y_eval_base predictions_wo_deny of
        Inl e \<Rightarrow> Inl e
      | Inr acc_wo \<Rightarrow>
          (case accuracy_score y_eval_base predictions_w_deny of
             Inl e \<Rightarrow> Inl e
           | Inr acc_w \<Rightarrow>
               Inr (if acc_wo < acc_w then predictions_w_deny else predictions_wo_deny)))"

text \<open>
  The accuracy that \<^verbatim>\<open>sdqc\<close> reports for the without-deny sequence
  (\<^verbatim>\<open>"accuracy w/o d"\<close>), as a function of the three classifiers' predictions.
\<close>

definition accuracy_wo_deny ::
  "string list \<Rightarrow> string list \<Rightarrow> string list \<Rightarrow> string list \<Rightarrow> error + real" where
  "accuracy_wo_deny y_eval_base base_predictions deny_predictions query_predictions =
     (case ensemble base_predictions deny_predictions query_predictions of
        Inl e \<Rightarrow> Inl e
      | Inr preds \<Rightarrow> accuracy_score y_eval_base (fst preds))"

subsection \<open>Notions used to state the results\<close>

text \<open>
  The root text that the loop body uses for a reply under a given cache: the cached text of
  the root's id if there is one, the root's own text otherwise.
\<close>

definition root_text_in :: "(tweet \<Rightarrow> string) \<Rightarrow> (int \<rightharpoonup> string) \<Rightarrow> tweet \<Rightarrow> string" where
  "root_text_in parseable root_cache tweet =
     (case root_cache (id_field (root_of tweet)) of
        Some cached \<Rightarrow> cached
      | None \<Rightarrow> parseable (root_of tweet))"

text \<open>The loop body's decision to keep a tweet, under a given cache.\<close>

definition kept_under ::
  "(tweet \<Rightarrow> string) \<Rightarrow> (string \<Rightarrow> string \<Rightarrow> error + real) \<Rightarrow> bool \<Rightarrow> real \<Rightarrow>
   (int \<rightharpoonup> string) \<Rightarrow> tweet \<Rightarrow> bool" where
  "kept_under parseable similarity filter_short similarity_threshold root_cache tweet \<longleftrightarrow>
     root_of tweet = tweet \<or>
     \<not> (filter_short \<and> length (split_space (parseable tweet)) < 3) \<and>
     (case similarity (root_text_in parseable root_cache tweet) (parseable tweet) of
        Inl e \<Rightarrow> False
      | Inr s \<Rightarrow> s < similarity_threshold)"

text \<open>The relabelled dictionary, entry by entry.\<close>

definition relabelled :: "string \<Rightarrow> annotations \<Rightarrow> annotations" where
  "relabelled one a = map (\<lambda>(k, label). (k, if label = one then label else ''not_'' @ one)) a"

text \<open>
  A small thread to run the filter on: a root and four replies to it. The last reply has
  two words with two spaces between them.
\<close>

definition example_root :: tweet where
  "example_root = Tweet 1 ''Breaking news: X happened'' None"

definition example_reply_a :: tweet where
  "example_reply_a = Tweet 2 ''Is that true?'' (Some example_root)"

definition example_reply_b :: tweet where
  "example_reply_b = Tweet 3 ''No it is not true'' (Some example_root)"

definition example_reply_c :: tweet where
  "example_reply_c = Tweet 4 ''lol same'' (Some example_root)"

definition example_reply_spaced :: tweet where
  "example_reply_spaced = Tweet 5 ''lol  same'' (Some example_root)"


text \<open>
  A similarity to run the filter with: 1 on identical texts and 0 otherwise. It is used
  on the example thread only, where a reply either repeats the root or shares no word
  with it, so that the cosine of the two term vectors is 1 or 0 as well (up to rounding
  in the first case, far from the thresholds used with it).
\<close>

definition exact_match_similarity :: "string \<Rightarrow> string \<Rightarrow> error + real" where
  "exact_match_similarity root_text tweet_text = Inr (if root_text = tweet_text then 1 else 0)"






text \<open>A similarity computation that always raises.\<close>

definition failing_similarity :: "string \<Rightarrow> string \<Rightarrow> error + real" where
  "failing_similarity root_text tweet_text = Inl ValueError"

subsection \<open>What the combiner's loop computes\<close>

lemma ensemble_loop_map:
  assumes "\<forall>i\<in>set idx. i < length b \<and> i < length d \<and> i < length q"
  shows "ensemble_loop b d q idx acc =
     Inr (fst acc @ map (\<lambda>i. if b ! i = ''comment'' then ''comment''
                               else if q ! i = ''query'' then ''query'' else b ! i) idx,
          snd acc @ map (\<lambda>i. if q ! i = ''query'' then ''query''
                               else if d ! i = ''deny'' then ''deny'' else b ! i) idx)"
  using assms
proof (induction idx arbitrary: acc)
  case Nil
  then show ?case by simp
next
  case (Cons i rest)
  then show ?case
    by (simp add: without_deny_label_def with_deny_label_def py_index_def)
qed

lemma ensemble_map:
  assumes "length d = length b" and "length q = length b"
  shows "ensemble b d q =
     Inr (map (\<lambda>i. if b ! i = ''comment'' then ''comment''
                     else if q ! i = ''query'' then ''query'' else b ! i) [0..<length b],
          map (\<lambda>i. if q ! i = ''query'' then ''query''
                     else if d ! i = ''deny'' then ''deny'' else b ! i) [0..<length b])"
  unfolding ensemble_def using assms by (subst ensemble_loop_map) auto

lemma accuracy_score_same_length:
  "length y_true = length y_pred \<Longrightarrow> y_true \<noteq> [] \<Longrightarrow>
   accuracy_score y_true y_pred =
     Inr (real (length (filter (\<lambda>(t, p). t = p) (zip y_true y_pred))) / real (length y_true))"
  by (simp add: accuracy_score_def)

text \<open>On an empty evaluation set there is no score, and the selection raises.\<close>

lemma accuracy_score_empty: "accuracy_score [] y_pred = Inl ValueError"
  by (simp add: accuracy_score_def)

lemma best_predictions_empty:
  "best_predictions [] predictions_wo_deny predictions_w_deny = Inl ValueError"
  by (simp add: best_predictions_def accuracy_score_empty)

subsection \<open>The ensemble strategies\<close>

text \<open>
  C1. On predictions of the three classifiers for one evaluation set (three sequences of
  one length), the loop returns, and the without-deny sequence has one label per message:
  \<open>comment\<close> where Base says \<open>comment\<close>, whatever the two detectors say; else
  \<open>query\<close> where the Query-detector says \<open>query\<close>; else Base's label.
\<close>

theorem without_deny_per_message:
  assumes "length deny_predictions = length base_predictions"
    and "length query_predictions = length base_predictions"
  shows "\<exists>wo w. ensemble base_predictions deny_predictions query_predictions = Inr (wo, w) \<and>
           length wo = length base_predictions \<and>
           (\<forall>i < length base_predictions.
              wo ! i = (if base_predictions ! i = ''comment'' then ''comment''
                        else if query_predictions ! i = ''query'' then ''query''
                        else base_predictions ! i))"
  using ensemble_map [OF assms] by simp

theorem without_deny_per_message_witness:
  "length [''deny'', ''not_deny'', ''deny''] = length [''comment'', ''support'', ''deny''] \<and>
   length [''query'', ''query'', ''not_query''] = length [''comment'', ''support'', ''deny''] \<and>
   (\<exists>wo w. ensemble [''comment'', ''support'', ''deny''] [''deny'', ''not_deny'', ''deny'']
              [''query'', ''query'', ''not_query''] = Inr (wo, w) \<and>
            length wo = length [''comment'', ''support'', ''deny''] \<and>
            (\<forall>i < length [''comment'', ''support'', ''deny''].
               wo ! i = (if [''comment'', ''support'', ''deny''] ! i = ''comment'' then ''comment''
                         else if [''query'', ''query'', ''not_query''] ! i = ''query'' then ''query''
                         else [''comment'', ''support'', ''deny''] ! i)))"
proof -
  have h1: "length [''deny'', ''not_deny'', ''deny''] = length [''comment'', ''support'', ''deny'']"
    by simp
  have h2: "length [''query'', ''query'', ''not_query''] = length [''comment'', ''support'', ''deny'']"
    by simp
  show ?thesis by (intro conjI h1 h2 without_deny_per_message [OF h1 h2])
qed

text \<open>
  C2. On the same inputs the with-deny sequence has one label per message, in the
  priority order Query over Deny over Base: \<open>query\<close> where the Query-detector says
  \<open>query\<close>; else \<open>deny\<close> where the Deny-detector says \<open>deny\<close>; else Base's label.
\<close>

theorem with_deny_per_message:
  assumes "length deny_predictions = length base_predictions"
    and "length query_predictions = length base_predictions"
  shows "\<exists>wo w. ensemble base_predictions deny_predictions query_predictions = Inr (wo, w) \<and>
           length w = length base_predictions \<and>
           (\<forall>i < length base_predictions.
              w ! i = (if query_predictions ! i = ''query'' then ''query''
                       else if deny_predictions ! i = ''deny'' then ''deny''
                       else base_predictions ! i))"
  using ensemble_map [OF assms] by simp

theorem with_deny_per_message_witness:
  "length [''deny'', ''deny'', ''not_deny''] = length [''comment'', ''support'', ''support''] \<and>
   length [''query'', ''not_query'', ''not_query''] = length [''comment'', ''support'', ''support''] \<and>
   (\<exists>wo w. ensemble [''comment'', ''support'', ''support''] [''deny'', ''deny'', ''not_deny'']
              [''query'', ''not_query'', ''not_query''] = Inr (wo, w) \<and>
            length w = length [''comment'', ''support'', ''support''] \<and>
            (\<forall>i < length [''comment'', ''support'', ''support''].
               w ! i = (if [''query'', ''not_query'', ''not_query''] ! i = ''query'' then ''query''
                        else if [''deny'', ''deny'', ''not_deny''] ! i = ''deny'' then ''deny''
                        else [''comment'', ''support'', ''support''] ! i)))"
proof -
  have h1: "length [''deny'', ''deny'', ''not_deny''] = length [''comment'', ''support'', ''support'']"
    by simp
  have h2: "length [''query'', ''not_query'', ''not_query''] = length [''comment'', ''support'', ''support'']"
    by simp
  show ?thesis by (intro conjI h1 h2 with_deny_per_message [OF h1 h2])
qed

text \<open>
  C9. The without-deny sequence does not depend on the Deny-detector: two runs on one
  evaluation set with the same Base and Query-detector predictions and any two
  Deny-detector predictions give the same without-deny sequence, and the same accuracy of
  it against the gold labels.
\<close>

theorem without_deny_independent_of_deny:
  assumes "length deny1 = length base_predictions"
    and "length deny2 = length base_predictions"
    and "length query_predictions = length base_predictions"
  shows "(\<exists>wo w1 w2. ensemble base_predictions deny1 query_predictions = Inr (wo, w1) \<and>
                      ensemble base_predictions deny2 query_predictions = Inr (wo, w2)) \<and>
         accuracy_wo_deny y_eval_base base_predictions deny1 query_predictions =
         accuracy_wo_deny y_eval_base base_predictions deny2 query_predictions"
  using ensemble_map [OF assms(1) assms(3)] ensemble_map [OF assms(2) assms(3)]
  by (simp add: accuracy_wo_deny_def)

theorem without_deny_independent_of_deny_witness:
  "length [''deny'', ''deny''] = length [''support'', ''comment''] \<and>
   length [''not_deny'', ''not_deny''] = length [''support'', ''comment''] \<and>
   length [''not_query'', ''query''] = length [''support'', ''comment''] \<and>
   (\<exists>wo w1 w2. ensemble [''support'', ''comment''] [''deny'', ''deny''] [''not_query'', ''query'']
                  = Inr (wo, w1) \<and>
                ensemble [''support'', ''comment''] [''not_deny'', ''not_deny''] [''not_query'', ''query'']
                  = Inr (wo, w2)) \<and>
   accuracy_wo_deny [''deny'', ''comment''] [''support'', ''comment''] [''deny'', ''deny'']
     [''not_query'', ''query''] =
   accuracy_wo_deny [''deny'', ''comment''] [''support'', ''comment''] [''not_deny'', ''not_deny'']
     [''not_query'', ''query'']"
proof -
  have h1: "length [''deny'', ''deny''] = length [''support'', ''comment'']" by simp
  have h2: "length [''not_deny'', ''not_deny''] = length [''support'', ''comment'']" by simp
  have h3: "length [''not_query'', ''query''] = length [''support'', ''comment'']" by simp
  from without_deny_independent_of_deny [OF h1 h2 h3, of "[''deny'', ''comment'']"]
  show ?thesis using h1 h2 h3 by blast
qed

text \<open>
  C3. On a non-empty evaluation set both sequences have a score, and the choice between
  them depends on the two scores against the gold labels only: the with-deny sequence is
  returned when its score is strictly higher, the without-deny sequence otherwise, and so
  on a tie.
\<close>

theorem strategy_selection:
  assumes "y_eval_base \<noteq> []"
    and "length predictions_wo_deny = length y_eval_base"
    and "length predictions_w_deny = length y_eval_base"
  shows "\<exists>acc_wo acc_w.
           accuracy_score y_eval_base predictions_wo_deny = Inr acc_wo \<and>
           accuracy_score y_eval_base predictions_w_deny = Inr acc_w \<and>
           best_predictions y_eval_base predictions_wo_deny predictions_w_deny =
             Inr (if acc_wo < acc_w then predictions_w_deny else predictions_wo_deny) \<and>
           (acc_wo = acc_w \<longrightarrow>
              best_predictions y_eval_base predictions_wo_deny predictions_w_deny =
                Inr predictions_wo_deny)"
  using assms by (simp add: best_predictions_def accuracy_score_def)

theorem strategy_selection_witness:
  "[''query'', ''deny''] \<noteq> [] \<and>
   length [''query'', ''comment''] = length [''query'', ''deny''] \<and>
   length [''comment'', ''deny''] = length [''query'', ''deny''] \<and>
   accuracy_score [''query'', ''deny''] [''query'', ''comment''] = Inr (1 / 2) \<and>
   accuracy_score [''query'', ''deny''] [''comment'', ''deny''] = Inr (1 / 2) \<and>
   best_predictions [''query'', ''deny''] [''query'', ''comment''] [''comment'', ''deny''] =
     Inr [''query'', ''comment'']"
proof -
  have h0: "[''query'', ''deny''] \<noteq> []" by simp
  have h1: "length [''query'', ''comment''] = length [''query'', ''deny'']" by simp
  have h2: "length [''comment'', ''deny''] = length [''query'', ''deny'']" by simp
  have a1: "accuracy_score [''query'', ''deny''] [''query'', ''comment''] = Inr (1 / 2)"
    by (simp add: accuracy_score_def)
  have a2: "accuracy_score [''query'', ''deny''] [''comment'', ''deny''] = Inr (1 / 2)"
    by (simp add: accuracy_score_def)
  from strategy_selection [OF h0 h1 h2] a1 a2
  have "best_predictions [''query'', ''deny''] [''query'', ''comment''] [''comment'', ''deny''] =
          Inr [''query'', ''comment'']"
    by auto
  with h0 h1 h2 a1 a2 show ?thesis by blast
qed

subsection \<open>The walk to the root\<close>

text \<open>
  The walk ends at a tweet without a parent, and it returns the tweet it started from
  exactly when that tweet has no parent. So the test \<^verbatim>\<open>root_tweet == tweet\<close> of the
  filter singles out the tweets without a parent, whether \<^verbatim>\<open>==\<close> compares objects by
  identity or by content.
\<close>

lemma root_of_parent_None: "parent (root_of t) = None"
  by (induction t rule: root_of.induct) simp_all

lemma root_of_fixed_iff: "root_of t = t \<longleftrightarrow> parent t = None"
proof
  assume "root_of t = t"
  then show "parent t = None" using root_of_parent_None [of t] by simp
next
  assume "parent t = None"
  then show "root_of t = t" by (cases t) simp
qed

subsection \<open>What the filter's loop computes\<close>

text \<open>
  One pass of the body only ever extends the cache: an id that is cached keeps its text.
  The body's decision for a tweet is therefore the decision under any later cache, and in
  particular under the cache at the end of the loop.
\<close>

lemma filter_body_spec:
  assumes "filter_body parseable similarity fs thr (c, acc) t = Inr (c1, acc1)"
  shows "c \<subseteq>\<^sub>m c1 \<and>
         (\<forall>c2. c1 \<subseteq>\<^sub>m c2 \<longrightarrow>
            acc1 = acc @ (if kept_under parseable similarity fs thr c2 t then [t] else []))"
proof (cases "root_of t = t")
  case True
  with assms show ?thesis by (simp add: filter_body_def kept_under_def)
next
  case False
  define r where "r = root_text_in parseable c t"
  have c1: "c1 = c(id_field (root_of t) \<mapsto> r)"
    using assms False
    by (auto simp: filter_body_def Let_def r_def root_text_in_def split: if_splits sum.splits)
  have le: "c \<subseteq>\<^sub>m c1"
    unfolding c1 r_def root_text_in_def map_le_def by (auto split: option.splits)
  have rt: "root_text_in parseable c2 t = r" if "c1 \<subseteq>\<^sub>m c2" for c2
  proof -
    have "c2 (id_field (root_of t)) = Some r"
      using that unfolding c1 map_le_def by (metis domI fun_upd_same)
    then show ?thesis by (simp add: root_text_in_def)
  qed
  have "acc1 = acc @ (if kept_under parseable similarity fs thr c2 t then [t] else [])"
    if "c1 \<subseteq>\<^sub>m c2" for c2
    using assms False rt [OF that]
    by (auto simp: filter_body_def Let_def kept_under_def r_def root_text_in_def
             split: if_splits sum.splits)
  with le show ?thesis by blast
qed

lemma filter_loop_spec:
  assumes "filter_loop parseable similarity fs thr (c, acc) ts = Inr (c', out)"
  shows "c \<subseteq>\<^sub>m c' \<and>
         (\<forall>c2. c' \<subseteq>\<^sub>m c2 \<longrightarrow>
            out = acc @ filter (kept_under parseable similarity fs thr c2) ts)"
  using assms
proof (induction ts arbitrary: c acc)
  case Nil
  then show ?case by simp
next
  case (Cons t ts)
  from Cons.prems obtain c1 acc1 where
    body: "filter_body parseable similarity fs thr (c, acc) t = Inr (c1, acc1)" and
    rest: "filter_loop parseable similarity fs thr (c1, acc1) ts = Inr (c', out)"
    by (auto split: sum.splits)
  from filter_body_spec [OF body] have
    le1: "c \<subseteq>\<^sub>m c1" and
    a1: "\<And>c2. c1 \<subseteq>\<^sub>m c2 \<Longrightarrow>
           acc1 = acc @ (if kept_under parseable similarity fs thr c2 t then [t] else [])"
    by blast+
  from Cons.IH [OF rest] have
    le2: "c1 \<subseteq>\<^sub>m c'" and
    a2: "\<And>c2. c' \<subseteq>\<^sub>m c2 \<Longrightarrow>
           out = acc1 @ filter (kept_under parseable similarity fs thr c2) ts"
    by blast+
  have "c \<subseteq>\<^sub>m c'" using le1 le2 by (rule map_le_trans)
  moreover have "out = acc @ filter (kept_under parseable similarity fs thr c2) (t # ts)"
    if "c' \<subseteq>\<^sub>m c2" for c2
  proof -
    have "c1 \<subseteq>\<^sub>m c2" using le2 that by (rule map_le_trans)
    from a1 [OF this] a2 [OF that] show ?thesis by simp
  qed
  ultimately show ?case by blast
qed

lemma filter_tweets_as_filter:
  assumes "filter_tweets parseable similarity fs thr ts = Inr out"
  shows "\<exists>cache. out = filter (kept_under parseable similarity fs thr cache) ts"
proof -
  from assms obtain c' where
    "filter_loop parseable similarity fs thr (Map.empty, []) ts = Inr (c', out)"
    by (auto simp: filter_tweets_def split: sum.splits)
  from filter_loop_spec [OF this]
  have "out = [] @ filter (kept_under parseable similarity fs thr c') ts"
    by (simp add: map_le_refl)
  then show ?thesis by auto
qed





text \<open>The filter returns a list whenever the similarity computation does not raise.\<close>

lemma filter_body_returns:
  assumes "\<forall>a b. \<exists>s. similarity a b = Inr s"
  shows "\<exists>st'. filter_body parseable similarity fs thr st t = Inr st'"
proof -
  obtain s where "similarity (root_text_in parseable (fst st) t) (parseable t) = Inr s"
    using assms by blast
  then show ?thesis
    by (simp add: filter_body_def Let_def root_text_in_def)
qed

lemma filter_loop_returns:
  assumes "\<forall>a b. \<exists>s. similarity a b = Inr s"
  shows "\<exists>st'. filter_loop parseable similarity fs thr st ts = Inr st'"
proof (induction ts arbitrary: st)
  case Nil
  show ?case by simp
next
  case (Cons t ts)
  from filter_body_returns [OF assms] obtain st1 where
    "filter_body parseable similarity fs thr st t = Inr st1" by blast
  with Cons.IH [of st1] show ?case by simp
qed

lemma filter_tweets_returns:
  assumes "\<forall>a b. \<exists>s. similarity a b = Inr s"
  shows "\<exists>out. filter_tweets parseable similarity fs thr ts = Inr out"
proof -
  from filter_loop_returns [OF assms] obtain st' where
    "filter_loop parseable similarity fs thr (Map.empty, []) ts = Inr st'" by blast
  then show ?thesis by (simp add: filter_tweets_def)
qed

text \<open>
  A reply that passes the length check is appended exactly when its similarity to the
  root text is below the threshold.
\<close>

lemma reply_kept_iff_below_threshold:
  assumes "parent tweet \<noteq> None"
    and "\<not> (filter_short \<and> length (split_space (parseable tweet)) < 3)"
    and "similarity (root_text_in parseable root_cache tweet) (parseable tweet) = Inr s"
  shows "filter_body parseable similarity filter_short similarity_threshold (root_cache, filtered) tweet =
           Inr (root_cache(id_field (root_of tweet) \<mapsto> root_text_in parseable root_cache tweet),
                if s < similarity_threshold then filtered @ [tweet] else filtered)"
proof -
  have "root_of tweet \<noteq> tweet" using assms(1) by (simp add: root_of_fixed_iff)
  then show ?thesis
    using assms(2,3) by (auto simp: filter_body_def Let_def root_text_in_def)
qed

lemma count_list_filter: "count_list (filter P xs) x = (if P x then count_list xs x else 0)"
  by (induction xs) auto

lemma example_filter_run:
  "filter_tweets text_field exact_match_similarity True (9 / 10)
     [example_root, example_reply_a, example_reply_b, example_reply_c, example_reply_a]
   = Inr [example_root, example_reply_a, example_reply_b, example_reply_a]"
  by (simp add: filter_tweets_def filter_body_def Let_def example_root_def example_reply_a_def
        example_reply_b_def example_reply_c_def exact_match_similarity_def split_space_def)

subsection \<open>The training filter\<close>

text \<open>
  C4. Whatever the parameters, a tweet of the input that has no parent (the root of its
  thread) is in the list the filter returns, as many times as it is in the input.
\<close>

theorem root_tweet_retained:
  assumes "filter_tweets parseable similarity filter_short similarity_threshold tweets = Inr out"
    and "parent tweet = None"
    and "tweet \<in> set tweets"
  shows "tweet \<in> set out \<and> count_list out tweet = count_list tweets tweet"
proof -
  from filter_tweets_as_filter [OF assms(1)] obtain cache where
    out: "out = filter (kept_under parseable similarity filter_short similarity_threshold cache) tweets"
    by blast
  have "kept_under parseable similarity filter_short similarity_threshold cache tweet"
    using assms(2) by (simp add: kept_under_def root_of_fixed_iff)
  then show ?thesis using assms(3) by (simp add: out count_list_filter)
qed

text \<open>
  The example runs the filter with \<open>filter_short\<close> set and the threshold at 0: the reply
  goes, both occurrences of the root stay.
\<close>

theorem root_tweet_retained_witness:
  "filter_tweets text_field exact_match_similarity True 0
     [example_root, example_reply_a, example_root] = Inr [example_root, example_root] \<and>
   parent example_root = None \<and>
   example_root \<in> set [example_root, example_reply_a, example_root] \<and>
   example_root \<in> set [example_root, example_root] \<and>
   count_list [example_root, example_root] example_root =
     count_list [example_root, example_reply_a, example_root] example_root"
proof -
  have h1: "filter_tweets text_field exact_match_similarity True 0
     [example_root, example_reply_a, example_root] = Inr [example_root, example_root]"
    by (simp add: filter_tweets_def filter_body_def Let_def example_root_def example_reply_a_def
          exact_match_similarity_def split_space_def)
  have h2: "parent example_root = None" by (simp add: example_root_def)
  have h3: "example_root \<in> set [example_root, example_reply_a, example_root]" by simp
  from root_tweet_retained [OF h1 h2 h3] h1 h2 h3 show ?thesis by blast
qed

text \<open>
  The length check. With \<open>filter_short\<close> set, a reply whose text splits at single spaces
  into fewer than 3 pieces is dropped by the loop body without a call of the similarity
  computation (the body's result does not mention it, and is a result even where the
  similarity computation would raise), and it is in no list the filter returns.
\<close>

lemma short_reply_discarded:
  assumes "filter_short"
    and "parent tweet \<noteq> None"
    and "length (split_space (parseable tweet)) < 3"
  shows "filter_body parseable similarity filter_short similarity_threshold (root_cache, filtered) tweet =
           Inr (root_cache(id_field (root_of tweet) \<mapsto> root_text_in parseable root_cache tweet),
                filtered) \<and>
         (\<forall>out. filter_tweets parseable similarity filter_short similarity_threshold tweets = Inr out
                \<longrightarrow> tweet \<notin> set out)"
proof -
  have nr: "root_of tweet \<noteq> tweet" using assms(2) by (simp add: root_of_fixed_iff)
  have body: "filter_body parseable similarity filter_short similarity_threshold (root_cache, filtered) tweet =
           Inr (root_cache(id_field (root_of tweet) \<mapsto> root_text_in parseable root_cache tweet),
                filtered)"
    using assms(1,3) nr by (simp add: filter_body_def Let_def root_text_in_def)
  have "tweet \<notin> set out"
    if "filter_tweets parseable similarity filter_short similarity_threshold tweets = Inr out" for out
  proof -
    from filter_tweets_as_filter [OF that] obtain cache where
      out: "out = filter (kept_under parseable similarity filter_short similarity_threshold cache) tweets"
      by blast
    have "\<not> kept_under parseable similarity filter_short similarity_threshold cache tweet"
      using assms(1,3) nr by (simp add: kept_under_def)
    then show ?thesis by (simp add: out)
  qed
  with body show ?thesis by blast
qed

text \<open>
  The example runs the filter with a similarity computation that always raises: the
  two-word reply is dropped before it is reached, and the filter returns the root.
\<close>

lemma short_reply_discarded_example:
  "parent example_reply_c \<noteq> None \<and>
   length (split_space (text_field example_reply_c)) < 3 \<and>
   filter_tweets text_field failing_similarity True (9 / 10) [example_root, example_reply_c]
     = Inr [example_root] \<and>
   example_reply_c \<notin> set [example_root]"
proof -
  have h1: "True" by simp
  have h2: "parent example_reply_c \<noteq> None" by (simp add: example_reply_c_def)
  have h3: "length (split_space (text_field example_reply_c)) < 3"
    by (simp add: example_reply_c_def split_space_def)
  have run: "filter_tweets text_field failing_similarity True (9 / 10)
               [example_root, example_reply_c] = Inr [example_root]"
    by (simp add: filter_tweets_def filter_body_def Let_def example_root_def example_reply_c_def
          failing_similarity_def split_space_def)
  from short_reply_discarded
         [where filter_short = True and tweet = example_reply_c and parseable = text_field
            and similarity = failing_similarity and similarity_threshold = "9 / 10"
            and tweets = "[example_root, example_reply_c]", OF h1 h2 h3] run
  have "example_reply_c \<notin> set [example_root]"
    by blast
  with h2 h3 run show ?thesis by blast
qed

text \<open>
  C7. The source means to discard a tweet that is too short
  (\<^verbatim>\<open># Discard training tweet if too short\<close>), and counts the pieces of \<^verbatim>\<open>split(' ')\<close>
  for it. The count includes the empty pieces between adjacent spaces: a reply of two
  words with two spaces between them has fewer than 3 whitespace-separated tokens, yet it
  is cut into 3 pieces, passes the length check with \<open>filter_short\<close> set, and is kept.
\<close>

theorem two_word_reply_kept:
  "length (spec_whitespace_tokens (text_field example_reply_spaced)) < 3 \<and>
   parent example_reply_spaced \<noteq> None \<and>
   filter_tweets text_field exact_match_similarity True (9 / 10)
     [example_root, example_reply_spaced] = Inr [example_root, example_reply_spaced]"
  by (simp add: filter_tweets_def filter_body_def Let_def example_root_def
        example_reply_spaced_def exact_match_similarity_def split_space_def
        spec_whitespace_tokens_def is_whitespace_def)






text \<open>
  C8. The list the filter returns is a subsequence of its input: it is the input with
  the tweets that are not in the output left out, so a retained tweet keeps all its
  occurrences and the retained tweets keep their order.
\<close>

theorem filter_output_subsequence:
  assumes "filter_tweets parseable similarity filter_short similarity_threshold tweets = Inr out"
  shows "subseq out tweets \<and> out = filter (\<lambda>tweet. tweet \<in> set out) tweets"
proof -
  from filter_tweets_as_filter [OF assms] obtain cache where
    out: "out = filter (kept_under parseable similarity filter_short similarity_threshold cache) tweets"
    by blast
  have "filter (\<lambda>tweet. tweet \<in> set out) tweets = out"
    unfolding out by (rule filter_cong) auto
  moreover have "subseq out tweets" unfolding out by simp
  ultimately show ?thesis by simp
qed

theorem filter_output_subsequence_witness:
  "filter_tweets text_field exact_match_similarity True (9 / 10)
     [example_root, example_reply_a, example_reply_b, example_reply_c, example_reply_a]
     = Inr [example_root, example_reply_a, example_reply_b, example_reply_a] \<and>
   subseq [example_root, example_reply_a, example_reply_b, example_reply_a]
     [example_root, example_reply_a, example_reply_b, example_reply_c, example_reply_a] \<and>
   [example_root, example_reply_a, example_reply_b, example_reply_a] =
     filter (\<lambda>tweet. tweet \<in> set [example_root, example_reply_a, example_reply_b, example_reply_a])
       [example_root, example_reply_a, example_reply_b, example_reply_c, example_reply_a]"
  using filter_output_subsequence [OF example_filter_run] example_filter_run by blast

subsection \<open>What the relabeler's loop computes\<close>

lemma update_fresh: "k \<notin> fst ` set acc \<Longrightarrow> AList.update k v acc = acc @ [(k, v)]"
  by (induction acc) auto

lemma relabel_loop_spec:
  assumes "distinct ks" and "set ks \<subseteq> fst ` set a" and "set ks \<inter> fst ` set acc = {}"
  shows "relabel_loop a one ks acc =
           Inr (acc @ map (\<lambda>k. (k, let label = the (map_of a k)
                                    in if label = one then label else ''not_'' @ one)) ks)"
  using assms
proof (induction ks arbitrary: acc)
  case Nil
  then show ?case by simp
next
  case (Cons k ks)
  from Cons.prems obtain label where l: "map_of a k = Some label"
    by (metis list.set_intros(1) subsetD weak_map_of_SomeI map_of_eq_None_iff not_Some_eq)
  let ?v = "if label = one then label else ''not_'' @ one"
  have fresh: "k \<notin> fst ` set acc" using Cons.prems by auto
  have "set ks \<inter> fst ` set (acc @ [(k, ?v)]) = {}" using Cons.prems by auto
  with Cons.IH [of "acc @ [(k, ?v)]"] Cons.prems l fresh show ?case
    by (simp add: update_fresh)
qed

lemma generate_one_vs_rest_relabelled:
  assumes "distinct (map fst a)"
  shows "generate_one_vs_rest_annotations a one = Inr (relabelled one a)"
proof -
  have "generate_one_vs_rest_annotations a one =
          Inr (map (\<lambda>k. (k, let label = the (map_of a k)
                              in if label = one then label else ''not_'' @ one)) (map fst a))"
    unfolding generate_one_vs_rest_annotations_def
    using relabel_loop_spec [of "map fst a" a "[]" one] assms by simp
  moreover have "map (\<lambda>k. (k, let label = the (map_of a k)
                              in if label = one then label else ''not_'' @ one)) (map fst a)
               = relabelled one a"
    using assms by (auto simp: Let_def relabelled_def)
  ultimately show ?thesis by simp
qed

lemma relabelled_simps:
  "relabelled one [] = []"
  "relabelled one ((k, label) # a) =
     (k, if label = one then label else ''not_'' @ one) # relabelled one a"
  by (simp_all add: relabelled_def)

lemma keys_relabelled: "map fst (relabelled one a) = map fst a"
  by (induction a) (auto simp: relabelled_simps)

lemma map_of_relabelled:
  "map_of (relabelled one a) k =
     map_option (\<lambda>label. if label = one then label else ''not_'' @ one) (map_of a k)"
  by (induction a) (auto simp: relabelled_simps)

lemma values_relabelled: "snd ` set (relabelled one a) \<subseteq> {one, ''not_'' @ one}"
proof (induction a)
  case Nil
  show ?case by (simp add: relabelled_simps)
next
  case (Cons p a)
  obtain k label where p: "p = (k, label)" by (cases p)
  show ?case using Cons.IH unfolding p relabelled_simps by (cases "label = one") simp_all
qed

lemma not_prefix_differs: "one \<noteq> ''not_'' @ one"
proof
  assume "one = ''not_'' @ one"
  then have "length one = length (''not_'' @ one)" by simp
  then show False by simp
qed

lemma relabelled_twice: "relabelled one (relabelled one a) = relabelled one a"
proof (induction a)
  case Nil
  show ?case by (simp add: relabelled_simps)
next
  case (Cons p a)
  obtain k label where p: "p = (k, label)" by (cases p)
  show ?case
    using Cons.IH not_prefix_differs [of one] unfolding p
    by (cases "label = one") (simp_all add: relabelled_simps)
qed

subsection \<open>The label relabeler\<close>

text \<open>
  C5, as amended. On a dictionary of annotations (distinct keys) the relabeler returns a
  dictionary with the same keys in the same order; the entry of a message id is the
  target where the gold label is the target and \<open>not_<target>\<close> otherwise; the two
  strings differ, and every value of the output is one of the two.
\<close>

theorem relabel_per_message:
  assumes "distinct (map fst annotations)"
  shows "\<exists>r. generate_one_vs_rest_annotations annotations one = Inr r \<and>
           map fst r = map fst annotations \<and>
           (\<forall>tweet_id label. map_of annotations tweet_id = Some label \<longrightarrow>
              map_of r tweet_id = Some (if label = one then one else ''not_'' @ one)) \<and>
           snd ` set r \<subseteq> {one, ''not_'' @ one} \<and>
           one \<noteq> ''not_'' @ one"
proof -
  have look: "\<forall>tweet_id label. map_of annotations tweet_id = Some label \<longrightarrow>
      map_of (relabelled one annotations) tweet_id = Some (if label = one then one else ''not_'' @ one)"
    by (simp add: map_of_relabelled)
  from generate_one_vs_rest_relabelled [OF assms] keys_relabelled look values_relabelled
    not_prefix_differs
  show ?thesis by blast
qed

theorem relabel_per_message_witness:
  "distinct (map fst [(''A'', ''query''), (''B'', ''deny'')]) \<and>
   generate_one_vs_rest_annotations [(''A'', ''query''), (''B'', ''deny'')] ''deny'' =
     Inr [(''A'', ''not_deny''), (''B'', ''deny'')] \<and>
   map_of [(''A'', ''not_deny''), (''B'', ''deny'')] ''A'' = Some ''not_deny'' \<and>
   snd ` set [(''A'', ''not_deny''), (''B'', ''deny'')] \<subseteq> {''deny'', ''not_'' @ ''deny''}"
proof -
  have h: "distinct (map fst [(''A'', ''query''), (''B'', ''deny'')])" by simp
  have run: "generate_one_vs_rest_annotations [(''A'', ''query''), (''B'', ''deny'')] ''deny'' =
     Inr [(''A'', ''not_deny''), (''B'', ''deny'')]"
    by (simp add: generate_one_vs_rest_annotations_def)
  have a: "map_of [(''A'', ''query''), (''B'', ''deny'')] ''A'' = Some ''query''" by simp
  from relabel_per_message [OF h, of "''deny''"] obtain r where
    r: "generate_one_vs_rest_annotations [(''A'', ''query''), (''B'', ''deny'')] ''deny'' = Inr r"
    and look: "\<forall>tweet_id label. map_of [(''A'', ''query''), (''B'', ''deny'')] tweet_id = Some label \<longrightarrow>
              map_of r tweet_id = Some (if label = ''deny'' then ''deny'' else ''not_'' @ ''deny'')"
    and vals: "snd ` set r \<subseteq> {''deny'', ''not_'' @ ''deny''}"
    by blast
  from r run have eq: "r = [(''A'', ''not_deny''), (''B'', ''deny'')]" by simp
  from look a have "map_of r ''A'' = Some (if ''query'' = ''deny'' then ''deny'' else ''not_'' @ ''deny'')"
    by blast
  then have "map_of [(''A'', ''not_deny''), (''B'', ''deny'')] ''A'' = Some ''not_deny''"
    unfolding eq by simp
  with h run vals [unfolded eq] show ?thesis by blast
qed

text \<open>
  C5, as stated, fails: the values of the output need not be the whole two-element set.
  Where no gold label is the target, the target is not among them.
\<close>

theorem relabel_values_counterexample:
  "generate_one_vs_rest_annotations [(''A'', ''query'')] ''deny'' = Inr [(''A'', ''not_deny'')] \<and>
   snd ` set [(''A'', ''not_deny'')] \<noteq> {''deny'', ''not_deny''}"
  by (simp add: generate_one_vs_rest_annotations_def)

text \<open>
  C10. The relabeler is idempotent: relabelling its output for the same target returns
  the output.
\<close>

theorem relabel_idempotent:
  assumes "distinct (map fst annotations)"
  shows "\<exists>r. generate_one_vs_rest_annotations annotations one = Inr r \<and>
           generate_one_vs_rest_annotations r one = Inr r"
proof -
  have "distinct (map fst (relabelled one annotations))"
    unfolding keys_relabelled by (rule assms)
  then have "generate_one_vs_rest_annotations (relabelled one annotations) one =
               Inr (relabelled one (relabelled one annotations))"
    by (rule generate_one_vs_rest_relabelled)
  with generate_one_vs_rest_relabelled [OF assms, of one] show ?thesis
    by (simp add: relabelled_twice)
qed

theorem relabel_idempotent_witness:
  "distinct (map fst [(''A'', ''query''), (''B'', ''deny'')]) \<and>
   generate_one_vs_rest_annotations [(''A'', ''query''), (''B'', ''deny'')] ''deny'' =
     Inr [(''A'', ''not_deny''), (''B'', ''deny'')] \<and>
   generate_one_vs_rest_annotations [(''A'', ''not_deny''), (''B'', ''deny'')] ''deny'' =
     Inr [(''A'', ''not_deny''), (''B'', ''deny'')]"
proof -
  have h: "distinct (map fst [(''A'', ''query''), (''B'', ''deny'')])" by simp
  have run: "generate_one_vs_rest_annotations [(''A'', ''query''), (''B'', ''deny'')] ''deny'' =
     Inr [(''A'', ''not_deny''), (''B'', ''deny'')]"
    by (simp add: generate_one_vs_rest_annotations_def)
  from relabel_idempotent [OF h, of "''deny''"] run
  have "generate_one_vs_rest_annotations [(''A'', ''not_deny''), (''B'', ''deny'')] ''deny'' =
     Inr [(''A'', ''not_deny''), (''B'', ''deny'')]"
    by auto
  with h run show ?thesis by blast
qed

end
